theory Spec2Isabelle
  imports Main
begin

text \<open>
  A blog application on Express: posts are rows of a table of a hosted store, keyed by
  a slug derived from the title, each with at most one file in a bucket. The theory
  follows the slug-keyed application, lines 287-618 of \<open>src/app.js\<close>; line numbers
  below are lines of that file.
\<close>

section \<open>JavaScript strings\<close>

text \<open>
  A JavaScript string is a sequence of UTF-16 code units. The model takes a string as a
  \<^typ>\<open>string\<close>, each \<^typ>\<open>char\<close> being the code unit of the same number
  (U+0000 to U+00FF, the Latin-1 range); on these strings \<open>toLowerCase\<close>,
  the regular expression classes \<open>\w\<close> and \<open>\s\<close> and \<open>trim\<close> act character by
  character, as defined below.
\<close>

definition code_unit :: "char \<Rightarrow> nat" where
  "code_unit c = of_char c"

text \<open>\<open>String.prototype.toLowerCase\<close> on one code unit of the Latin-1 range:
  \<open>A\<close>-\<open>Z\<close> and the capital letters U+00C0-U+00DE (U+00D7, the multiplication sign,
  apart) move up by 32; every other code unit stays.\<close>

definition lower_char :: "char \<Rightarrow> char" where
  "lower_char c =
     (let n = code_unit c in
      if (65 \<le> n \<and> n \<le> 90) \<or> (192 \<le> n \<and> n \<le> 222 \<and> n \<noteq> 215)
      then char_of (n + 32) else c)"

definition toLowerCase :: "string \<Rightarrow> string" where
  "toLowerCase s = map lower_char s"

text \<open>The class \<open>\w\<close> is \<open>[A-Za-z0-9_]\<close>.\<close>

definition is_word :: "char \<Rightarrow> bool" where
  "is_word c =
     (let n = code_unit c in
      (65 \<le> n \<and> n \<le> 90) \<or> (97 \<le> n \<and> n \<le> 122) \<or> (48 \<le> n \<and> n \<le> 57) \<or>
      c = CHR ''_'')"

text \<open>The class \<open>\s\<close>: tab, line feed, vertical tab, form feed, carriage return, space
  and the no-break space U+00A0 (the code units of the class that lie below U+0100).
  \<open>trim\<close> strips exactly the same code units.\<close>

definition is_space :: "char \<Rightarrow> bool" where
  "is_space c = (let n = code_unit c in (9 \<le> n \<and> n \<le> 13) \<or> n = 32 \<or> n = 160)"

definition is_hyphen :: "char \<Rightarrow> bool" where
  "is_hyphen c = (c = CHR ''-'')"

text \<open>\<open>s.replace(/[^\w\s-]/g, '')\<close>: every character outside the class is dropped.\<close>

definition remove_special :: "string \<Rightarrow> string" where
  "remove_special s = filter (\<lambda>c. is_word c \<or> is_space c \<or> is_hyphen c) s"

text \<open>\<open>s.replace(/X+/g, '-')\<close> for a character class \<open>X\<close>: scanning from the left, each
  maximal run of characters of the class becomes one hyphen.\<close>

function replace_runs :: "(char \<Rightarrow> bool) \<Rightarrow> string \<Rightarrow> string" where
  "replace_runs P [] = []"
| "replace_runs P (c # cs) =
     (if P c then CHR ''-'' # replace_runs P (dropWhile P cs)
      else c # replace_runs P cs)"
  by pat_completeness auto
termination
  by (relation "measure (\<lambda>(P, s). length s)") (auto simp: le_imp_less_Suc length_dropWhile_le)

text \<open>\<open>s.trim()\<close>: white space is stripped from both ends.\<close>

definition trim :: "string \<Rightarrow> string" where
  "trim s = rev (dropWhile is_space (rev (dropWhile is_space s)))"

subsection \<open>The slug generator (lines 305-312)\<close>

definition generateSlug :: "string \<Rightarrow> string" where
  "generateSlug title =
     trim (replace_runs is_hyphen (replace_runs is_space (remove_special (toLowerCase title))))"

subsection \<open>The derivation as the specification words it\<close>

text \<open>Step 2 of the specification keeps letters, digits, white space and hyphens. A
  letter is read as \<open>a\<close>-\<open>z\<close> or \<open>A\<close>-\<open>Z\<close>, a digit as \<open>0\<close>-\<open>9\<close>.\<close>

definition is_letter :: "char \<Rightarrow> bool" where
  "is_letter c = (let n = code_unit c in (65 \<le> n \<and> n \<le> 90) \<or> (97 \<le> n \<and> n \<le> 122))"

definition is_digit :: "char \<Rightarrow> bool" where
  "is_digit c = (let n = code_unit c in 48 \<le> n \<and> n \<le> 57)"

definition spec_kept :: "char \<Rightarrow> bool" where
  "spec_kept c = (is_letter c \<or> is_digit c \<or> is_space c \<or> is_hyphen c)"

text \<open>Step 5 of the specification: hyphens are trimmed from both ends.\<close>

definition trim_hyphens :: "string \<Rightarrow> string" where
  "trim_hyphens s = rev (dropWhile is_hyphen (rev (dropWhile is_hyphen s)))"

text \<open>The five steps, with the class of characters that step 2 keeps as a parameter.\<close>

definition spec_steps :: "(char \<Rightarrow> bool) \<Rightarrow> string \<Rightarrow> string" where
  "spec_steps kept title =
     trim_hyphens (replace_runs is_hyphen (replace_runs is_space (filter kept (toLowerCase title))))"

definition spec_slug :: "string \<Rightarrow> string" where
  "spec_slug title = spec_steps spec_kept title"

text \<open>The characters the source's class \<open>[\w\s-]\<close> keeps, in the specification's
  terms: letters, digits, the underscore, white space and hyphens.\<close>

definition code_kept :: "char \<Rightarrow> bool" where
  "code_kept c = (is_letter c \<or> is_digit c \<or> c = CHR ''_'' \<or> is_space c \<or> is_hyphen c)"

section \<open>Numbers, file names and URLs\<close>

text \<open>A whole number in a template literal or in \<open>number + string\<close> is written
  in decimal, without leading zeros. The counter of the creation loop and the value of
  \<open>Date.now()\<close> (milliseconds, a whole number) are modelled as \<^typ>\<open>nat\<close>; the counter
  of the source is a double, which is exact for the first \<open>2^53\<close> increments.\<close>

definition digit_char :: "nat \<Rightarrow> char" where
  "digit_char d = char_of (48 + d)"

fun decimal :: "nat \<Rightarrow> string" where
  "decimal n = (if n < 10 then [digit_char n] else decimal (n div 10) @ [digit_char (n mod 10)])"

declare decimal.simps [simp del]

text \<open>\<open>s.split('/').pop()\<close>: what follows the last slash (all of \<open>s\<close> when it has none).\<close>

definition split_pop :: "string \<Rightarrow> string" where
  "split_pop s = rev (takeWhile (\<lambda>c. c \<noteq> CHR ''/'') (rev s))"

text \<open>\<open>path.extname\<close> (POSIX): trailing slashes are ignored; in the last segment the
  extension runs from the last dot to the end, and is empty when the segment has no dot,
  when its only dot is its first character, and for the segment \<open>..\<close>.\<close>

definition extname :: "string \<Rightarrow> string" where
  "extname p =
     (let base = split_pop (rev (dropWhile (\<lambda>c. c = CHR ''/'') (rev p)));
          ext = CHR ''.'' # rev (takeWhile (\<lambda>c. c \<noteq> CHR ''.'') (rev base))
      in if CHR ''.'' \<notin> set base then []
         else if length ext = length base then []
         else if base = ''..'' then []
         else ext)"

section \<open>The data model and the external services\<close>

text \<open>A field of a parsed form body: absent (\<open>undefined\<close>), a string, or an array or
  object (the extended parser builds them from keys such as \<open>title[]\<close>).\<close>

datatype form_value = Absent | Text string | Nested

record upload_file =
  originalname :: string
  buffer :: string
  mimetype :: string

text \<open>A row of the table \<open>blogs\<close>. \<open>post_id\<close> is the column \<open>id\<close>; it and \<open>created_at\<close>
  are assigned by the store.\<close>

record post =
  post_id :: nat
  title :: string
  description :: form_value
  slug :: string
  file_url :: "string option"
  created_at :: nat

text \<open>The writes sent to the record store and the object store, in the order sent.\<close>

datatype remote_call =
  StorageRemove "string list"
| StorageUpload string
| DbInsert string
| DbUpdate string
| DbDelete string

text \<open>The state a request handler sees: the rows of \<open>blogs\<close>, the objects of the
  bucket \<open>blog-files\<close> by name, the flag \<open>req.session.isAuthenticated\<close> of the client's
  session, the next \<open>id\<close> the store will assign, and the log of the writes sent so far.
  The services are taken to answer every call: a read returns what is stored, and a
  write is refused only where stated below.\<close>

record world =
  blogs :: "post list"
  bucket :: "(string \<times> upload_file) list"
  isAuthenticated :: bool
  next_id :: nat
  calls :: "remote_call list"

record config =
  ADMIN_USERNAME :: "string option"
  ADMIN_PASSWORD :: "string option"
  SUPABASE_URL :: string

text \<open>A request: the route parameter, the form fields, the uploaded file if any, and
  the clock readings the handler takes (\<open>Date.now()\<close> at the slug suffix and at the file
  name, and the store's clock at an insert).\<close>

record request =
  param_slug :: string
  body_title :: form_value
  body_description :: form_value
  body_remove_file :: form_value
  body_username :: form_value
  body_password :: form_value
  req_file :: "upload_file option"
  now_slug :: nat
  now_file :: nat
  now_db :: nat

datatype view_data = NoData | Blogs "post list" | Blog post

datatype response =
  Redirect string
| Render string view_data
| Send nat string

text \<open>\<open>.single()\<close>: the row when the query matches exactly one, otherwise no data
  (and an error the handlers do not look at, or treat like no data).\<close>

definition single :: "'a list \<Rightarrow> 'a option" where
  "single rows = (case rows of [r] \<Rightarrow> Some r | _ \<Rightarrow> None)"

text \<open>\<open>.select('*').eq('slug', s).single()\<close>\<close>

definition select_by_slug :: "string \<Rightarrow> world \<Rightarrow> post option" where
  "select_by_slug s w = single (filter (\<lambda>r. slug r = s) (blogs w))"

text \<open>\<open>.select('*').order('created_at', { ascending: false })\<close>\<close>

definition select_all_desc :: "world \<Rightarrow> post list" where
  "select_all_desc w = rev (sort_key created_at (blogs w))"

text \<open>\<open>.insert([{ title, description, file_url, slug }])\<close>: the store adds the row,
  with the next \<open>id\<close> and its own time.\<close>

definition db_insert :: "nat \<Rightarrow> string \<Rightarrow> form_value \<Rightarrow> string option \<Rightarrow> string \<Rightarrow> world \<Rightarrow> world" where
  "db_insert now t d f s w =
     w\<lparr>blogs := blogs w @
          [\<lparr>post_id = next_id w, title = t, description = d, slug = s, file_url = f,
            created_at = now\<rparr>],
       next_id := Suc (next_id w),
       calls := calls w @ [DbInsert s]\<rparr>"

text \<open>\<open>.update({ title, description, file_url, slug }).eq('slug', key)\<close>: every row
  whose slug is \<open>key\<close> gets the new values; a field that is \<open>undefined\<close> is not sent and
  stays.\<close>

definition db_update :: "string \<Rightarrow> string \<Rightarrow> form_value \<Rightarrow> string option \<Rightarrow> string \<Rightarrow> world \<Rightarrow> world" where
  "db_update key t d f s w =
     w\<lparr>blogs := map (\<lambda>r. if slug r = key
                          then r\<lparr>title := t,
                                 description := (if d = Absent then description r else d),
                                 file_url := f, slug := s\<rparr>
                          else r) (blogs w),
       calls := calls w @ [DbUpdate key]\<rparr>"

text \<open>\<open>.delete().eq('slug', key)\<close>\<close>

definition db_delete :: "string \<Rightarrow> world \<Rightarrow> world" where
  "db_delete key w =
     w\<lparr>blogs := filter (\<lambda>r. slug r \<noteq> key) (blogs w),
       calls := calls w @ [DbDelete key]\<rparr>"

text \<open>\<open>supabase.storage.from('blog-files').remove(names)\<close>\<close>

definition storage_remove :: "string list \<Rightarrow> world \<Rightarrow> world" where
  "storage_remove names w =
     w\<lparr>bucket := filter (\<lambda>(n, _). n \<notin> set names) (bucket w),
       calls := calls w @ [StorageRemove names]\<rparr>"

text \<open>\<open>.upload(filename, buffer, ...)\<close> without \<open>upsert\<close>: refused (\<open>Inl\<close>, an
  \<open>uploadError\<close>) when an object of that name exists.\<close>

definition storage_upload :: "string \<Rightarrow> upload_file \<Rightarrow> world \<Rightarrow> world + world" where
  "storage_upload name f w =
     (let w' = w\<lparr>calls := calls w @ [StorageUpload name]\<rparr>
      in if name \<in> fst ` set (bucket w) then Inl w'
         else Inr (w'\<lparr>bucket := bucket w @ [(name, f)]\<rparr>))"

text \<open>\<open>encodeURI\<close>, which the storage client applies to a public URL: letters, digits
  and the characters \<open>; / ? : @ & = + $ , # - _ . ! ~ * ' ( )\<close> stay; every other code
  unit is replaced by the bytes of its UTF-8 encoding, each written as \<open>%\<close> and two
  upper-case hexadecimal digits (one byte below U+0080, two bytes from there to
  U+00FF).\<close>

definition hex_digit :: "nat \<Rightarrow> char" where
  "hex_digit d = (if d < 10 then char_of (48 + d) else char_of (55 + d))"

definition percent :: "nat \<Rightarrow> string" where
  "percent b = [CHR ''%'', hex_digit (b div 16), hex_digit (b mod 16)]"

definition uri_unescaped :: "char \<Rightarrow> bool" where
  "uri_unescaped c =
     (let n = code_unit c in
      (65 \<le> n \<and> n \<le> 90) \<or> (97 \<le> n \<and> n \<le> 122) \<or> (48 \<le> n \<and> n \<le> 57) \<or>
      c \<in> set '';/?:@&=+$,#'' \<or> c \<in> set ''-_.!~*()'' \<or> c = CHR 0x27)"

definition encode_unit :: "char \<Rightarrow> string" where
  "encode_unit c =
     (let n = code_unit c in
      if uri_unescaped c then [c]
      else if n < 128 then percent n
      else percent (192 + n div 64) @ percent (128 + n mod 64))"

definition encodeURI :: "string \<Rightarrow> string" where
  "encodeURI s = concat (map encode_unit s)"

text \<open>\<open>.getPublicUrl(filename)\<close>: the object's address under the configured URL,
  passed through \<open>encodeURI\<close>.\<close>

definition getPublicUrl :: "config \<Rightarrow> string \<Rightarrow> string" where
  "getPublicUrl cfg name =
     encodeURI (SUPABASE_URL cfg @ ''/storage/v1/object/public/blog-files/'' @ name)"

text \<open>Truthiness of a \<open>file_url\<close>: \<open>null\<close> and the empty string are falsy.\<close>

definition truthy :: "string option \<Rightarrow> bool" where
  "truthy u = (case u of None \<Rightarrow> False | Some s \<Rightarrow> s \<noteq> [])"

text \<open>\<open>field === process.env.X\<close>: an environment variable is a string or \<open>undefined\<close>.\<close>

fun strict_eq_env :: "form_value \<Rightarrow> string option \<Rightarrow> bool" where
  "strict_eq_env Absent None = True"
| "strict_eq_env (Text s) (Some e) = (s = e)"
| "strict_eq_env _ _ = False"

section \<open>The request handlers\<close>

text \<open>A handler takes the state and gives the response and the new state. An exception
  thrown inside a handler's \<open>try\<close> is caught by its \<open>catch\<close>: the answer is then the
  handler's error response, in the state reached when it was thrown.\<close>

text \<open>\<open>requireAuth\<close> (lines 325-331)\<close>

definition requireAuth ::
  "(world \<Rightarrow> (response \<times> world) option) \<Rightarrow> world \<Rightarrow> (response \<times> world) option" where
  "requireAuth handler w =
     (if isAuthenticated w then handler w else Some (Redirect ''/login'', w))"

text \<open>\<open>GET /\<close> (lines 334-351)\<close>

definition get_home :: "world \<Rightarrow> response \<times> world" where
  "get_home w = (Render ''home'' (Blogs (select_all_desc w)), w)"

text \<open>\<open>GET /blog/:slug\<close> (lines 353-371)\<close>

definition get_blog :: "request \<Rightarrow> world \<Rightarrow> response \<times> world" where
  "get_blog req w =
     (case select_by_slug (param_slug req) w of
        None \<Rightarrow> (Redirect ''/'', w)
      | Some blog \<Rightarrow> (Render ''blog'' (Blog blog), w))"

text \<open>\<open>GET /login\<close> and \<open>POST /login\<close> (lines 373-385)\<close>

definition get_login :: "world \<Rightarrow> response \<times> world" where
  "get_login w = (Render ''login'' NoData, w)"

definition post_login :: "config \<Rightarrow> request \<Rightarrow> world \<Rightarrow> response \<times> world" where
  "post_login cfg req w =
     (if strict_eq_env (body_username req) (ADMIN_USERNAME cfg) \<and>
         strict_eq_env (body_password req) (ADMIN_PASSWORD cfg)
      then (Redirect ''/admin'', w\<lparr>isAuthenticated := True\<rparr>)
      else (Redirect ''/login'', w))"

text \<open>\<open>GET /admin\<close> (lines 388-405)\<close>

definition get_admin :: "world \<Rightarrow> response \<times> world" where
  "get_admin w = (Render ''admin'' (Blogs (select_all_desc w)), w)"

text \<open>\<open>GET /admin/edit/:slug\<close> (lines 408-426)\<close>

definition get_admin_edit :: "request \<Rightarrow> world \<Rightarrow> response \<times> world" where
  "get_admin_edit req w =
     (case select_by_slug (param_slug req) w of
        None \<Rightarrow> (Redirect ''/admin'', w)
      | Some blog \<Rightarrow> (Render ''edit'' (Blog blog), w))"

text \<open>\<open>if (fileUrl) { ... remove([fileUrl.split('/').pop()]) }\<close>
  (lines 457-461, 468-473 and 525-530)\<close>

definition remove_attached :: "string option \<Rightarrow> world \<Rightarrow> world" where
  "remove_attached fileUrl w =
     (case fileUrl of
        None \<Rightarrow> w
      | Some u \<Rightarrow> if u \<noteq> [] then storage_remove [split_pop u] w else w)"

text \<open>The slug an edit stores (lines 432-445): the slug of the submitted title, with
  \<open>Date.now()\<close> appended when
  \<open>.select('id').eq('slug', newSlug).neq('slug', oldSlug).single()\<close> returns a row.\<close>

definition edit_slug :: "post list \<Rightarrow> string \<Rightarrow> string \<Rightarrow> nat \<Rightarrow> string" where
  "edit_slug rows oldSlug t now =
     (let newSlug = generateSlug t;
          existingPost = single (filter (\<lambda>r. slug r = newSlug \<and> slug r \<noteq> oldSlug) rows)
      in if existingPost \<noteq> None then newSlug @ ''-'' @ decimal now else newSlug)"

text \<open>\<open>POST /admin/edit/:slug\<close> (lines 429-510). \<open>generateSlug(title)\<close> throws when
  \<open>title\<close> is not a string, and \<open>currentBlog.file_url\<close> throws when no single row has
  the old slug.\<close>

definition post_admin_edit :: "config \<Rightarrow> request \<Rightarrow> world \<Rightarrow> response \<times> world" where
  "post_admin_edit cfg req w =
     (case body_title req of
        Text t \<Rightarrow>
          (let oldSlug = param_slug req;
               newSlug = edit_slug (blogs w) oldSlug t (now_slug req)
           in case select_by_slug oldSlug w of
                None \<Rightarrow> (Send 500 ''Error updating blog post'', w)
              | Some currentBlog \<Rightarrow>
                  (let removing = (body_remove_file req = Text ''on'' \<and>
                                   truthy (file_url currentBlog));
                       w1 = (if removing then remove_attached (file_url currentBlog) w else w);
                       fileUrl = (if removing then None else file_url currentBlog)
                   in case req_file req of
                        None \<Rightarrow>
                          (Redirect ''/admin'',
                           db_update oldSlug t (body_description req) fileUrl newSlug w1)
                      | Some f \<Rightarrow>
                          (let w2 = remove_attached fileUrl w1;
                               filename = decimal (now_file req) @ extname (originalname f)
                           in case storage_upload filename f w2 of
                                Inl w3 \<Rightarrow> (Send 500 ''Error updating blog post'', w3)
                              | Inr w3 \<Rightarrow>
                                  (Redirect ''/admin'',
                                   db_update oldSlug t (body_description req)
                                     (Some (getPublicUrl cfg filename)) newSlug w3))))
      | _ \<Rightarrow> (Send 500 ''Error updating blog post'', w))"

text \<open>\<open>POST /admin/delete/:slug\<close> (lines 513-544)\<close>

definition post_admin_delete :: "request \<Rightarrow> world \<Rightarrow> response \<times> world" where
  "post_admin_delete req w =
     (let w1 = (case select_by_slug (param_slug req) w of
                  None \<Rightarrow> w
                | Some blog \<Rightarrow> remove_attached (file_url blog) w)
      in (Redirect ''/admin'', db_delete (param_slug req) w1))"

text \<open>The probe loop of \<open>POST /admin/blog\<close> (lines 552-569), from the state
  \<open>counter\<close>, \<open>finalSlug\<close>; its value is the pair \<open>finalSlug\<close>, \<open>counter\<close> at the exit, and
  \<open>None\<close> when the loop never exits. Every pass sends one query; the first pass runs with
  \<open>counter = 1\<close>, so \<open>counter\<close> at the exit is the number of queries sent.\<close>

partial_function (option) probe :: "post list \<Rightarrow> string \<Rightarrow> nat \<Rightarrow> string \<Rightarrow> (string \<times> nat) option" where
  "probe rows base counter finalSlug =
     (case single (filter (\<lambda>r. slug r = finalSlug) rows) of
        None \<Rightarrow> Some (finalSlug, counter)
      | Some _ \<Rightarrow> probe rows base (counter + 1) (base @ ''-'' @ decimal counter))"

text \<open>The sequence of slugs the loop tries: the base slug, then the base slug with
  \<open>-1\<close>, \<open>-2\<close>, ... appended.\<close>

definition candidate :: "string \<Rightarrow> nat \<Rightarrow> string" where
  "candidate base k = (if k = 0 then base else base @ ''-'' @ decimal k)"

text \<open>\<open>POST /admin/blog\<close> (lines 546-609); \<open>None\<close> when the handler never answers.\<close>

definition post_admin_blog :: "config \<Rightarrow> request \<Rightarrow> world \<Rightarrow> (response \<times> world) option" where
  "post_admin_blog cfg req w =
     (case body_title req of
        Text t \<Rightarrow>
          (case probe (blogs w) (generateSlug t) 1 (generateSlug t) of
             None \<Rightarrow> None
           | Some (finalSlug, counter) \<Rightarrow>
               (case req_file req of
                  None \<Rightarrow>
                    Some (Redirect ''/'',
                          db_insert (now_db req) t (body_description req) None finalSlug w)
                | Some f \<Rightarrow>
                    (let filename = decimal (now_file req) @ extname (originalname f)
                     in case storage_upload filename f w of
                          Inl w1 \<Rightarrow> Some (Send 500 ''Error creating blog post'', w1)
                        | Inr w1 \<Rightarrow>
                            Some (Redirect ''/'',
                                  db_insert (now_db req) t (body_description req)
                                    (Some (getPublicUrl cfg filename)) finalSlug w1))))
      | _ \<Rightarrow> Some (Send 500 ''Error creating blog post'', w))"

text \<open>\<open>GET /logout\<close> (lines 611-614)\<close>

definition get_logout :: "world \<Rightarrow> response \<times> world" where
  "get_logout w = (Redirect ''/'', w\<lparr>isAuthenticated := False\<rparr>)"

text \<open>The routes as registered on \<open>app\<close>.\<close>

datatype route =
  GET_home | GET_blog | GET_login | POST_login | GET_admin | GET_admin_edit
| POST_admin_edit | POST_admin_delete | POST_admin_blog | GET_logout

fun app :: "config \<Rightarrow> route \<Rightarrow> request \<Rightarrow> world \<Rightarrow> (response \<times> world) option" where
  "app cfg GET_home req w = Some (get_home w)"
| "app cfg GET_blog req w = Some (get_blog req w)"
| "app cfg GET_login req w = Some (get_login w)"
| "app cfg POST_login req w = Some (post_login cfg req w)"
| "app cfg GET_admin req w = requireAuth (\<lambda>w. Some (get_admin w)) w"
| "app cfg GET_admin_edit req w = requireAuth (\<lambda>w. Some (get_admin_edit req w)) w"
| "app cfg POST_admin_edit req w = requireAuth (\<lambda>w. Some (post_admin_edit cfg req w)) w"
| "app cfg POST_admin_delete req w = requireAuth (\<lambda>w. Some (post_admin_delete req w)) w"
| "app cfg POST_admin_blog req w = requireAuth (post_admin_blog cfg req) w"
| "app cfg GET_logout req w = Some (get_logout w)"

text \<open>The admin-scoped routes the specification lists: admin list, edit form, submit
  edit, submit create, delete.\<close>

definition admin_scoped :: "route list" where
  "admin_scoped = [GET_admin, GET_admin_edit, POST_admin_edit, POST_admin_blog, POST_admin_delete]"

section \<open>Example states and requests\<close>

text \<open>Concrete configurations, rows, states and requests, on which the theorems below
  are evaluated.\<close>

declare probe.simps [code]

definition example_config :: config where
  "example_config =
     \<lparr>ADMIN_USERNAME = Some ''admin'', ADMIN_PASSWORD = Some ''secret'',
      SUPABASE_URL = ''https://db.example''\<rparr>"

definition example_post :: "nat \<Rightarrow> string \<Rightarrow> string \<Rightarrow> string option \<Rightarrow> post" where
  "example_post i t s f =
     \<lparr>post_id = i, title = t, description = Text ''text'', slug = s, file_url = f,
      created_at = i\<rparr>"

definition example_world :: "post list \<Rightarrow> (string \<times> upload_file) list \<Rightarrow> bool \<Rightarrow> world" where
  "example_world rows objects auth =
     \<lparr>blogs = rows, bucket = objects, isAuthenticated = auth,
      next_id = Suc (length rows), calls = []\<rparr>"

definition blank_request :: request where
  "blank_request =
     \<lparr>param_slug = [], body_title = Absent, body_description = Absent,
      body_remove_file = Absent, body_username = Absent, body_password = Absent,
      req_file = None, now_slug = 0, now_file = 0, now_db = 0\<rparr>"

definition two_hello_worlds :: world where
  "two_hello_worlds =
     example_world
       [example_post 1 ''Hello World'' ''hello-world'' None,
        example_post 2 ''Hello World'' ''hello-world-1'' None] [] True"

definition example_file :: upload_file where
  "example_file = \<lparr>originalname = ''photo.png'', buffer = ''bytes'', mimetype = ''image/png''\<rparr>"

definition first_post :: post where
  "first_post = example_post 1 ''First Post'' ''first-post''
          (Some ''https://db.example/storage/v1/object/public/blog-files/1700000000000.png'')"

definition second_post :: post where
  "second_post = example_post 2 ''Second'' ''second'' None"

definition attached_world :: "bool \<Rightarrow> world" where
  "attached_world auth =
     example_world [first_post, second_post] [(''1700000000000.png'', example_file)] auth"

text \<open>A post created by \<open>POST /admin/blog\<close> with an uploaded file whose extension has
  a space: the upload at \<open>Date.now() = 5\<close> stores the object \<open>5.p g\<close>, and the row's
  \<open>file_url\<close> is the encoded public URL, which ends in \<open>5.p%20g\<close>.\<close>

definition spaced_file :: upload_file where
  "spaced_file =
     \<lparr>originalname = ''scan.p g'', buffer = ''bytes'', mimetype = ''application/pdf''\<rparr>"

definition create_scan :: request where
  "create_scan =
     blank_request\<lparr>body_title := Text ''Scan'', body_description := Text ''text'',
       req_file := Some spaced_file, now_file := 5, now_db := 6\<rparr>"

definition scan_world :: world where
  "scan_world =
     \<lparr>blogs =
        [\<lparr>post_id = 1, title = ''Scan'', description = Text ''text'', slug = ''scan'',
          file_url = Some ''https://db.example/storage/v1/object/public/blog-files/5.p%20g'',
          created_at = 6\<rparr>],
      bucket = [(''5.p g'', spaced_file)],
      isAuthenticated = True, next_id = 2,
      calls = [StorageUpload ''5.p g'', DbInsert ''scan'']\<rparr>"

section \<open>Slug derivation\<close>

lemma not_space_hyphen: "\<not> is_space CHR ''-''"
  by (simp add: is_space_def code_unit_def)

lemma replace_runs_space_free: "c \<in> set (replace_runs is_space s) \<Longrightarrow> \<not> is_space c"
proof (induction is_space s rule: replace_runs.induct)
  case 1
  then show ?case by simp
next
  case (2 d ds)
  then show ?case by (auto simp: not_space_hyphen split: if_splits)
qed

lemma set_replace_runs: "set (replace_runs P s) \<subseteq> insert CHR ''-'' (set s)"
proof (induction P s rule: replace_runs.induct)
  case (1 P)
  then show ?case by simp
next
  case (2 P c cs)
  then show ?case by (auto dest: set_dropWhileD)
qed

lemma dropWhile_none: "\<forall>c \<in> set xs. \<not> P c \<Longrightarrow> dropWhile P xs = xs"
  by (cases xs) auto

lemma trim_no_space: "\<forall>c \<in> set s. \<not> is_space c \<Longrightarrow> trim s = s"
  by (simp add: trim_def dropWhile_none)

text \<open>The final \<open>trim()\<close> of \<open>generateSlug\<close> finds no white space to strip: every run
  of it has become a hyphen by then.\<close>

lemma generateSlug_steps:
  "generateSlug t =
     replace_runs is_hyphen (replace_runs is_space (remove_special (toLowerCase t)))"
proof -
  let ?s = "replace_runs is_space (remove_special (toLowerCase t))"
  have "\<forall>c \<in> set (replace_runs is_hyphen ?s). \<not> is_space c"
    using set_replace_runs[of is_hyphen ?s]
      replace_runs_space_free[of _ "remove_special (toLowerCase t)"]
    by (auto simp: not_space_hyphen)
  then show ?thesis by (simp add: generateSlug_def trim_no_space)
qed

lemma is_word_iff: "is_word c = (is_letter c \<or> is_digit c \<or> c = CHR ''_'')"
  by (auto simp: is_word_def is_letter_def is_digit_def Let_def)

lemma remove_special_kept: "remove_special s = filter code_kept s"
  unfolding remove_special_def
  by (rule filter_cong) (auto simp: code_kept_def is_word_iff)

text \<open>
  C1, as the specification states it, fails: the source keeps the underscore (it is in
  \<open>\w\<close>), and its \<open>trim()\<close> strips white space, of which none is left, so hyphens at
  the ends stay.
\<close>

theorem generateSlug_differs_from_spec:
  "generateSlug ''a_b'' = ''a_b'' \<and> spec_slug ''a_b'' = ''ab'' \<and>
   generateSlug '' a'' = ''-a'' \<and> spec_slug '' a'' = ''a''"
  by code_simp

text \<open>
  C1 (amended): for every title \<open>t\<close>, \<open>generateSlug t\<close> equals, up to hyphens at its two
  ends, the result of lower-casing \<open>t\<close>, removing every character that is not a letter,
  a digit, an underscore, white space or a hyphen, turning each run of white space into
  one hyphen, collapsing each run of hyphens into one, and trimming the hyphens at the
  ends.
\<close>

theorem generateSlug_spec_steps:
  "trim_hyphens (generateSlug t) = spec_steps code_kept t"
  by (simp add: generateSlug_steps spec_steps_def remove_special_kept)

theorem generateSlug_spec_steps_witness:
  "trim_hyphens (generateSlug ''My First Post!'') = ''my-first-post'' \<and>
   spec_steps code_kept ''My First Post!'' = ''my-first-post''"
proof -
  have "spec_steps code_kept ''My First Post!'' = ''my-first-post''"
    by code_simp
  then show ?thesis using generateSlug_spec_steps [of "''My First Post!''"] by simp
qed

section \<open>The probe loop of the create handler\<close>

lemma decimal_nonempty: "decimal n \<noteq> []"
  by (subst decimal.simps) simp

lemma digit_char_inj: "a < 10 \<Longrightarrow> b < 10 \<Longrightarrow> digit_char a = digit_char b \<Longrightarrow> a = b"
proof -
  assume a: "a < 10" and b: "b < 10" and e: "digit_char a = digit_char b"
  from e have "(of_char (digit_char a) :: nat) = of_char (digit_char b)" by simp
  with a b show ?thesis by (simp add: digit_char_def)
qed

lemma decimal_inj: "decimal m = decimal n \<Longrightarrow> m = n"
proof (induction m arbitrary: n rule: decimal.induct)
  case (1 m)
  show ?case
  proof (cases "m < 10")
    case True
    show ?thesis
    proof (cases "n < 10")
      case True
      with \<open>m < 10\<close> "1.prems" show ?thesis
        by (simp add: decimal.simps[of m] decimal.simps[of n] digit_char_inj)
    next
      case False
      with \<open>m < 10\<close> "1.prems" show ?thesis
        by (simp add: decimal.simps[of m] decimal.simps[of n] decimal_nonempty[symmetric])
    qed
  next
    case False
    show ?thesis
    proof (cases "n < 10")
      case True
      with \<open>\<not> m < 10\<close> "1.prems" show ?thesis
        by (simp add: decimal.simps[of m] decimal.simps[of n] decimal_nonempty)
    next
      case nf: False
      with False "1.prems" have "decimal (m div 10) = decimal (n div 10)"
        and d: "digit_char (m mod 10) = digit_char (n mod 10)"
        by (simp_all add: decimal.simps[of m] decimal.simps[of n])
      then have "m div 10 = n div 10" using "1.IH"[OF False] by simp
      moreover have "m mod 10 = n mod 10" using d by (simp add: digit_char_inj)
      ultimately show ?thesis by (metis div_mult_mod_eq)
    qed
  qed
qed


lemma probe_absent: "s \<notin> slug ` set rows \<Longrightarrow> single (filter (\<lambda>r. slug r = s) rows) = None"
proof -
  assume "s \<notin> slug ` set rows"
  then have "filter (\<lambda>r. slug r = s) rows = []" by (auto simp: filter_empty_conv)
  then show ?thesis by (simp add: single_def)
qed


lemma candidate_inj: "candidate base j = candidate base k \<Longrightarrow> j = k"
proof -
  assume eq: "candidate base j = candidate base k"
  then have len: "length (candidate base j) = length (candidate base k)" by simp
  show ?thesis
  proof (cases "j = 0")
    case True
    with len have "k = 0" by (simp add: candidate_def split: if_splits)
    with True show ?thesis by simp
  next
    case False
    show ?thesis
    proof (cases "k = 0")
      case True
      with len False show ?thesis by (simp add: candidate_def split: if_splits)
    next
      case k: False
      with False eq have "decimal j = decimal k" by (simp add: candidate_def)
      then show ?thesis by (rule decimal_inj)
    qed
  qed
qed


lemma probe_present_mem:
  assumes "single (filter (\<lambda>r. slug r = s) rows) \<noteq> None"
  shows "s \<in> slug ` set rows"
proof (rule ccontr)
  assume "s \<notin> slug ` set rows"
  then have "single (filter (\<lambda>r. slug r = s) rows) = None" by (rule probe_absent)
  with assms show False by simp
qed

lemma filter_distinct_slug:
  "distinct (map slug rows) \<Longrightarrow> r \<in> set rows \<Longrightarrow> filter (\<lambda>q. slug q = slug r) rows = [r]"
proof (induction rows)
  case Nil
  then show ?case by simp
next
  case (Cons a rows)
  show ?case
  proof (cases "a = r")
    case True
    with Cons.prems have "filter (\<lambda>q. slug q = slug r) rows = []"
      by (auto simp: filter_empty_conv) (metis imageI)
    with True show ?thesis by simp
  next
    case False
    with Cons.prems have "r \<in> set rows" and "slug a \<noteq> slug r" by auto
    with Cons show ?thesis by simp
  qed
qed

lemma probe_present:
  "distinct (map slug rows) \<Longrightarrow> s \<in> slug ` set rows \<Longrightarrow>
   single (filter (\<lambda>r. slug r = s) rows) \<noteq> None"
  by (auto simp: filter_distinct_slug single_def)

lemma probe_steps:
  "single (filter (\<lambda>r. slug r = candidate base (k + d)) rows) = None \<Longrightarrow>
   (\<And>j. k \<le> j \<Longrightarrow> j < k + d \<Longrightarrow> single (filter (\<lambda>r. slug r = candidate base j) rows) \<noteq> None) \<Longrightarrow>
   probe rows base (Suc k) (candidate base k) = Some (candidate base (k + d), Suc (k + d))"
proof (induction d arbitrary: k)
  case 0
  then show ?case by (subst probe.simps) simp
next
  case (Suc d)
  have here: "single (filter (\<lambda>r. slug r = candidate base k) rows) \<noteq> None"
    using Suc.prems(2)[of k] by simp
  have next_slug: "base @ ''-'' @ decimal (Suc k) = candidate base (Suc k)"
    by (simp add: candidate_def)
  have "probe rows base (Suc (Suc k)) (candidate base (Suc k)) =
        Some (candidate base (Suc k + d), Suc (Suc k + d))"
    using Suc.prems by (intro Suc.IH) auto
  with here next_slug show ?case
    by (subst probe.simps) (auto split: option.splits)
qed

lemma free_candidate_exists: "\<exists>j \<le> length rows. candidate base j \<notin> slug ` set rows"
proof (rule ccontr)
  assume "\<not> ?thesis"
  then have sub: "candidate base ` {0..length rows} \<subseteq> slug ` set rows" by auto
  have "inj_on (candidate base) {0..length rows}"
    by (auto simp: inj_on_def dest: candidate_inj)
  then have "card (candidate base ` {0..length rows}) = Suc (length rows)"
    by (simp add: card_image)
  moreover have "card (slug ` set rows) \<le> length rows"
    using card_image_le[of "set rows" slug] card_length[of rows] by simp
  moreover have "card (candidate base ` {0..length rows}) \<le> card (slug ` set rows)"
    using sub by (intro card_mono) auto
  ultimately show False by simp
qed

lemma probe_result:
  "\<exists>k \<le> length rows.
     probe rows base 1 base = Some (candidate base k, Suc k) \<and>
     single (filter (\<lambda>r. slug r = candidate base k) rows) = None \<and>
     (\<forall>j < k. single (filter (\<lambda>r. slug r = candidate base j) rows) \<noteq> None)"
proof -
  let ?free = "\<lambda>j. single (filter (\<lambda>r. slug r = candidate base j) rows) = None"
  define k where "k = (LEAST j. ?free j)"
  obtain j where j: "j \<le> length rows" "?free j"
    using free_candidate_exists[of rows base] probe_absent by blast
  have free: "?free k" unfolding k_def using j(2) by (rule LeastI)
  have le: "k \<le> length rows" unfolding k_def using Least_le[of ?free j] j by simp
  have before: "\<forall>i < k. \<not> ?free i" unfolding k_def using not_less_Least by blast
  have "probe rows base (Suc 0) (candidate base 0) = Some (candidate base (0 + k), Suc (0 + k))"
    using free before by (intro probe_steps) auto
  then have "probe rows base 1 base = Some (candidate base k, Suc k)"
    by (simp add: candidate_def)
  with free le before show ?thesis by blast
qed

lemma probe_first_free:
  assumes "distinct (map slug rows)"
  shows "\<exists>k \<le> length rows.
     probe rows base 1 base = Some (candidate base k, Suc k) \<and>
     candidate base k \<notin> slug ` set rows \<and>
     (\<forall>j < k. candidate base j \<in> slug ` set rows)"
proof -
  obtain k where k: "k \<le> length rows"
      "probe rows base 1 base = Some (candidate base k, Suc k)"
      "single (filter (\<lambda>r. slug r = candidate base k) rows) = None"
      "\<forall>j < k. single (filter (\<lambda>r. slug r = candidate base j) rows) \<noteq> None"
    using probe_result[of rows base] by blast
  have "candidate base k \<notin> slug ` set rows"
    using k(3) probe_present[OF assms] by blast
  moreover have "\<forall>j < k. candidate base j \<in> slug ` set rows"
    using k(4) probe_present_mem by blast
  ultimately show ?thesis using k(1,2) by blast
qed

lemma post_admin_blog_created:
  assumes "body_title req = Text t"
    and "probe (blogs w) (generateSlug t) 1 (generateSlug t) = Some (fs, c)"
    and "\<forall>f. req_file req = Some f \<longrightarrow>
           decimal (now_file req) @ extname (originalname f) \<notin> fst ` set (bucket w)"
  shows "\<exists>w' p. post_admin_blog cfg req w = Some (Redirect ''/'', w') \<and>
           blogs w' = blogs w @ [p] \<and> slug p = fs \<and> title p = t \<and>
           isAuthenticated w' = isAuthenticated w"
proof (cases "req_file req")
  case None
  with assms(1,2) show ?thesis
    by (simp add: post_admin_blog_def db_insert_def)
next
  case (Some f)
  with assms show ?thesis
    by (simp add: post_admin_blog_def db_insert_def storage_upload_def Let_def)
qed


text \<open>
  C5: the probe loop of \<open>POST /admin/blog\<close> exits, for every table and every title,
  after at most one query more than the table has rows; the slug it exits with is one
  the store reports no row for (and, when the slugs of the table are pairwise distinct,
  one that no row holds), and the handler answers.
\<close>

theorem probe_loop_terminates:
  "(\<exists>finalSlug counter.
      probe (blogs w) (generateSlug t) 1 (generateSlug t) = Some (finalSlug, counter) \<and>
      counter \<le> length (blogs w) + 1 \<and>
      select_by_slug finalSlug w = None \<and>
      (distinct (map slug (blogs w)) \<longrightarrow> finalSlug \<notin> slug ` set (blogs w))) \<and>
   post_admin_blog cfg req w \<noteq> None \<and>
   app cfg POST_admin_blog req w \<noteq> None"
proof -
  obtain k where k: "k \<le> length (blogs w)"
      "probe (blogs w) (generateSlug t) 1 (generateSlug t) = Some (candidate (generateSlug t) k, Suc k)"
      "single (filter (\<lambda>r. slug r = candidate (generateSlug t) k) (blogs w)) = None"
    using probe_result[of "blogs w" "generateSlug t"] by blast
  have free: "distinct (map slug (blogs w)) \<longrightarrow> candidate (generateSlug t) k \<notin> slug ` set (blogs w)"
    using k(3) probe_present by blast
  have first: "\<exists>finalSlug counter.
      probe (blogs w) (generateSlug t) 1 (generateSlug t) = Some (finalSlug, counter) \<and>
      counter \<le> length (blogs w) + 1 \<and>
      select_by_slug finalSlug w = None \<and>
      (distinct (map slug (blogs w)) \<longrightarrow> finalSlug \<notin> slug ` set (blogs w))"
    using k free by (auto simp: select_by_slug_def)
  have answers: "post_admin_blog cfg req w \<noteq> None"
  proof (cases "body_title req")
    case (Text u)
    obtain fs c where "probe (blogs w) (generateSlug u) 1 (generateSlug u) = Some (fs, c)"
      using probe_result[of "blogs w" "generateSlug u"] by blast
    with Text show ?thesis
      by (simp add: post_admin_blog_def Let_def split: option.splits sum.splits)
  qed (simp_all add: post_admin_blog_def)
  then have "app cfg POST_admin_blog req w \<noteq> None"
    by (simp add: requireAuth_def)
  with first answers show ?thesis by blast
qed

lemma two_hello_probe: "probe (blogs two_hello_worlds) (generateSlug ''Hello World'') 1 (generateSlug ''Hello World'') =
     Some (''hello-world-2'', 3)"
  by code_simp

lemma two_hello_distinct: "distinct (map slug (blogs two_hello_worlds))"
  by code_simp

theorem probe_loop_terminates_witness:
  "probe (blogs two_hello_worlds) (generateSlug ''Hello World'') 1 (generateSlug ''Hello World'') =
     Some (''hello-world-2'', 3) \<and>
   (3::nat) \<le> length (blogs two_hello_worlds) + 1 \<and>
   distinct (map slug (blogs two_hello_worlds)) \<and>
   ''hello-world-2'' \<notin> slug ` set (blogs two_hello_worlds) \<and>
   select_by_slug ''hello-world-2'' two_hello_worlds = None"
  using probe_loop_terminates [of two_hello_worlds "''Hello World''" example_config blank_request]
    two_hello_probe two_hello_distinct
  by auto


section \<open>Slug assignment on creation\<close>

lemma decimal_1: "decimal (Suc 0) = ''1''"
  by code_simp

lemma slug_hello_world: "generateSlug ''Hello World'' = ''hello-world''"
  by code_simp

lemma create_first_free:
  assumes dist: "distinct (map slug (blogs w))"
    and title: "body_title req = Text t"
    and upload: "\<forall>f. req_file req = Some f \<longrightarrow>
           decimal (now_file req) @ extname (originalname f) \<notin> fst ` set (bucket w)"
  shows "\<exists>k w' p. post_admin_blog cfg req w = Some (Redirect ''/'', w') \<and>
           blogs w' = blogs w @ [p] \<and> slug p = candidate (generateSlug t) k \<and> title p = t \<and>
           isAuthenticated w' = isAuthenticated w \<and>
           candidate (generateSlug t) k \<notin> slug ` set (blogs w) \<and>
           (\<forall>j < k. candidate (generateSlug t) j \<in> slug ` set (blogs w))"
proof -
  obtain k where k:
      "probe (blogs w) (generateSlug t) 1 (generateSlug t) = Some (candidate (generateSlug t) k, Suc k)"
      "candidate (generateSlug t) k \<notin> slug ` set (blogs w)"
      "\<forall>j < k. candidate (generateSlug t) j \<in> slug ` set (blogs w)"
    using probe_first_free[OF dist, of "generateSlug t"] by blast
  obtain w' p where "post_admin_blog cfg req w = Some (Redirect ''/'', w')"
      "blogs w' = blogs w @ [p]" "slug p = candidate (generateSlug t) k" "title p = t"
      "isAuthenticated w' = isAuthenticated w"
    using post_admin_blog_created[OF title k(1) upload, of cfg] by blast
  with k(2,3) show ?thesis by blast
qed

lemma create_hello_world_twice:
  assumes dist: "distinct (map slug (blogs w))"
    and t1: "body_title req1 = Text ''Hello World''" and f1: "req_file req1 = None"
    and t2: "body_title req2 = Text ''Hello World''" and f2: "req_file req2 = None"
    and free0: "''hello-world'' \<notin> slug ` set (blogs w)"
    and free1: "''hello-world-1'' \<notin> slug ` set (blogs w)"
  shows "\<exists>w1 w2 p1 p2.
           post_admin_blog cfg req1 w = Some (Redirect ''/'', w1) \<and>
           post_admin_blog cfg req2 w1 = Some (Redirect ''/'', w2) \<and>
           isAuthenticated w1 = isAuthenticated w \<and>
           blogs w2 = blogs w @ [p1, p2] \<and>
           slug p1 = ''hello-world'' \<and> slug p2 = ''hello-world-1''"
proof -
  let ?c = "candidate ''hello-world''"
  have c0: "?c 0 = ''hello-world''" and c1: "?c 1 = ''hello-world-1''"
    by (simp_all add: candidate_def decimal_1)
  obtain k w1 p1 where first: "post_admin_blog cfg req1 w = Some (Redirect ''/'', w1)"
      "blogs w1 = blogs w @ [p1]" "slug p1 = ?c k" "isAuthenticated w1 = isAuthenticated w"
      "\<forall>j < k. ?c j \<in> slug ` set (blogs w)"
    using create_first_free[OF dist t1, of cfg] f1 by (auto simp: slug_hello_world)
  have "k = 0"
  proof (rule ccontr)
    assume "k \<noteq> 0"
    then have "?c 0 \<in> slug ` set (blogs w)" using first(5) by blast
    with free0 c0 show False by simp
  qed
  with first(3) c0 have s1: "slug p1 = ''hello-world''" by simp
  have dist1: "distinct (map slug (blogs w1))"
    using dist first(2) s1 free0 by simp
  obtain k' w2 p2 where second: "post_admin_blog cfg req2 w1 = Some (Redirect ''/'', w2)"
      "blogs w2 = blogs w1 @ [p2]" "slug p2 = ?c k'"
      "?c k' \<notin> slug ` set (blogs w1)"
      "\<forall>j < k'. ?c j \<in> slug ` set (blogs w1)"
    using create_first_free[OF dist1 t2, of cfg] f2 by (auto simp: slug_hello_world)
  have "?c 0 \<in> slug ` set (blogs w1)" using first(2) s1 c0 by simp
  with second(4) have "k' \<noteq> 0" by (cases "k' = 0") auto
  moreover have "?c 1 \<notin> slug ` set (blogs w1)"
    using first(2) s1 free1 c1 by auto
  with second(5) have "\<not> 1 < k'" by blast
  ultimately have "k' = 1" by simp
  with second(3) c1 have "slug p2 = ''hello-world-1''" by simp
  with first second(1,2) s1 show ?thesis by simp
qed

text \<open>
  C2: in a table whose slugs are pairwise distinct, a create request with title \<open>t\<close>
  (sent with an authenticated session, and with no file or one whose object name is
  free) adds one row, whose slug is the first of \<open>generateSlug t\<close>,
  \<open>generateSlug t\<close>\<open>-1\<close>, \<open>generateSlug t\<close>\<open>-2\<close>, ... that no row holds. In
  particular two such requests titled \<open>Hello World\<close>, one after the other, on a table
  that holds neither slug, add rows with the slugs \<open>hello-world\<close> and
  \<open>hello-world-1\<close>.
\<close>

theorem create_assigns_first_free_slug:
  assumes "isAuthenticated w" and "distinct (map slug (blogs w))"
    and "body_title req = Text t"
    and "\<forall>f. req_file req = Some f \<longrightarrow>
           decimal (now_file req) @ extname (originalname f) \<notin> fst ` set (bucket w)"
  shows "(\<exists>k w' p. app cfg POST_admin_blog req w = Some (Redirect ''/'', w') \<and>
            blogs w' = blogs w @ [p] \<and> slug p = candidate (generateSlug t) k \<and>
            candidate (generateSlug t) k \<notin> slug ` set (blogs w) \<and>
            (\<forall>j < k. candidate (generateSlug t) j \<in> slug ` set (blogs w))) \<and>
         (t = ''Hello World'' \<and> req_file req = None \<and>
          body_title req2 = Text ''Hello World'' \<and> req_file req2 = None \<and>
          ''hello-world'' \<notin> slug ` set (blogs w) \<and>
          ''hello-world-1'' \<notin> slug ` set (blogs w) \<longrightarrow>
          (\<exists>w1 w2 p1 p2.
             app cfg POST_admin_blog req w = Some (Redirect ''/'', w1) \<and>
             app cfg POST_admin_blog req2 w1 = Some (Redirect ''/'', w2) \<and>
             blogs w2 = blogs w @ [p1, p2] \<and>
             slug p1 = ''hello-world'' \<and> slug p2 = ''hello-world-1''))"
proof (intro conjI impI)
  show "\<exists>k w' p. app cfg POST_admin_blog req w = Some (Redirect ''/'', w') \<and>
            blogs w' = blogs w @ [p] \<and> slug p = candidate (generateSlug t) k \<and>
            candidate (generateSlug t) k \<notin> slug ` set (blogs w) \<and>
            (\<forall>j < k. candidate (generateSlug t) j \<in> slug ` set (blogs w))"
    using create_first_free[OF assms(2,3,4), of cfg] assms(1)
    by (simp add: requireAuth_def) blast
next
  assume h: "t = ''Hello World'' \<and> req_file req = None \<and>
          body_title req2 = Text ''Hello World'' \<and> req_file req2 = None \<and>
          ''hello-world'' \<notin> slug ` set (blogs w) \<and>
          ''hello-world-1'' \<notin> slug ` set (blogs w)"
  then obtain w1 w2 p1 p2 where
      "post_admin_blog cfg req w = Some (Redirect ''/'', w1)"
      "post_admin_blog cfg req2 w1 = Some (Redirect ''/'', w2)"
      "isAuthenticated w1 = isAuthenticated w"
      "blogs w2 = blogs w @ [p1, p2]"
      "slug p1 = ''hello-world''" "slug p2 = ''hello-world-1''"
    using create_hello_world_twice[OF assms(2), of req req2 cfg] assms(3) by blast
  with assms(1) show "\<exists>w1 w2 p1 p2.
             app cfg POST_admin_blog req w = Some (Redirect ''/'', w1) \<and>
             app cfg POST_admin_blog req2 w1 = Some (Redirect ''/'', w2) \<and>
             blogs w2 = blogs w @ [p1, p2] \<and>
             slug p1 = ''hello-world'' \<and> slug p2 = ''hello-world-1''"
    by (simp add: requireAuth_def)
qed


theorem create_assigns_first_free_slug_witness:
  "isAuthenticated (example_world [] [] True) \<and>
   distinct (map slug (blogs (example_world [] [] True))) \<and>
   (\<exists>w1 w2 p1 p2.
      app example_config POST_admin_blog
        (blank_request\<lparr>body_title := Text ''Hello World''\<rparr>) (example_world [] [] True) =
        Some (Redirect ''/'', w1) \<and>
      app example_config POST_admin_blog
        (blank_request\<lparr>body_title := Text ''Hello World''\<rparr>) w1 = Some (Redirect ''/'', w2) \<and>
      blogs w2 = [p1, p2] \<and> slug p1 = ''hello-world'' \<and> slug p2 = ''hello-world-1'')"
  using create_assigns_first_free_slug
    [of "example_world [] [] True" "blank_request\<lparr>body_title := Text ''Hello World''\<rparr>"
        "''Hello World''" example_config "blank_request\<lparr>body_title := Text ''Hello World''\<rparr>"]
  by (simp add: example_world_def blank_request_def)

section \<open>Authentication\<close>

text \<open>
  C6: a request to an admin-scoped route (admin list, edit form, submit edit, submit
  create, delete) from a session that is not authenticated is answered with a redirect
  to \<open>/login\<close>, and the state is the one before: the rows, the bucket, the session and
  the log of writes sent are all unchanged.
\<close>

theorem admin_routes_require_auth:
  assumes "\<not> isAuthenticated w" and "route \<in> set admin_scoped"
  shows "app cfg route req w = Some (Redirect ''/login'', w)"
  using assms by (auto simp: admin_scoped_def requireAuth_def)

theorem admin_routes_require_auth_witness:
  "\<not> isAuthenticated (attached_world False) \<and>
   app example_config GET_admin blank_request (attached_world False) =
     Some (Redirect ''/login'', attached_world False) \<and>
   app example_config GET_admin_edit (blank_request\<lparr>param_slug := ''first-post''\<rparr>)
     (attached_world False) = Some (Redirect ''/login'', attached_world False) \<and>
   app example_config POST_admin_edit
     (blank_request\<lparr>param_slug := ''first-post'', body_title := Text ''Changed'',
        body_remove_file := Text ''on''\<rparr>)
     (attached_world False) = Some (Redirect ''/login'', attached_world False) \<and>
   app example_config POST_admin_blog (blank_request\<lparr>body_title := Text ''New''\<rparr>)
     (attached_world False) = Some (Redirect ''/login'', attached_world False) \<and>
   app example_config POST_admin_delete (blank_request\<lparr>param_slug := ''first-post''\<rparr>)
     (attached_world False) = Some (Redirect ''/login'', attached_world False)"
proof -
  have unauth: "\<not> isAuthenticated (attached_world False)"
    by (simp add: attached_world_def example_world_def)
  show ?thesis
    using unauth
      admin_routes_require_auth [OF unauth, of GET_admin]
      admin_routes_require_auth [OF unauth, of GET_admin_edit]
      admin_routes_require_auth [OF unauth, of POST_admin_edit]
      admin_routes_require_auth [OF unauth, of POST_admin_blog]
      admin_routes_require_auth [OF unauth, of POST_admin_delete]
    by (simp add: admin_scoped_def)
qed

text \<open>
  C7: two login submissions that both fail the comparison with the configured
  credentials, sent from a session that is not authenticated, have the same outcome:
  the redirect to \<open>/login\<close> and the unchanged state, in which the session is still not
  authenticated. Nothing in the outcome depends on which field was wrong.
\<close>

theorem failed_logins_look_alike:
  assumes "\<not> (strict_eq_env (body_username req1) (ADMIN_USERNAME cfg) \<and>
              strict_eq_env (body_password req1) (ADMIN_PASSWORD cfg))"
    and "\<not> (strict_eq_env (body_username req2) (ADMIN_USERNAME cfg) \<and>
              strict_eq_env (body_password req2) (ADMIN_PASSWORD cfg))"
    and "\<not> isAuthenticated w"
  shows "app cfg POST_login req1 w = Some (Redirect ''/login'', w) \<and>
         app cfg POST_login req2 w = Some (Redirect ''/login'', w) \<and>
         app cfg POST_login req1 w = app cfg POST_login req2 w \<and>
         (\<exists>w'. app cfg POST_login req1 w = Some (Redirect ''/login'', w') \<and> \<not> isAuthenticated w')"
  using assms by (simp add: post_login_def)

theorem failed_logins_look_alike_witness:
  "app example_config POST_login
     (blank_request\<lparr>body_username := Text ''root'', body_password := Text ''secret''\<rparr>)
     (attached_world False) = Some (Redirect ''/login'', attached_world False) \<and>
   app example_config POST_login
     (blank_request\<lparr>body_username := Text ''admin'', body_password := Text ''guess''\<rparr>)
     (attached_world False) = Some (Redirect ''/login'', attached_world False) \<and>
   \<not> isAuthenticated (attached_world False)"
  using failed_logins_look_alike
    [of "blank_request\<lparr>body_username := Text ''root'', body_password := Text ''secret''\<rparr>"
        example_config
        "blank_request\<lparr>body_username := Text ''admin'', body_password := Text ''guess''\<rparr>"
        "attached_world False"]
  by (simp add: example_config_def blank_request_def attached_world_def example_world_def)

section \<open>Editing a post\<close>

text \<open>
  C10: a submit-edit request whose slug parameter no row holds is answered by the
  handler with status 500 and the body \<open>Error updating blog post\<close>, and the state is
  unchanged (no write is sent); so answers the route, for an authenticated session.
\<close>

theorem edit_unknown_slug_fails:
  assumes "param_slug req \<notin> slug ` set (blogs w)"
  shows "post_admin_edit cfg req w = (Send 500 ''Error updating blog post'', w) \<and>
         (isAuthenticated w \<longrightarrow>
            app cfg POST_admin_edit req w = Some (Send 500 ''Error updating blog post'', w))"
proof -
  have none: "select_by_slug (param_slug req) w = None"
    unfolding select_by_slug_def using assms by (rule probe_absent)
  have "post_admin_edit cfg req w = (Send 500 ''Error updating blog post'', w)"
    by (cases "body_title req") (simp_all add: post_admin_edit_def none Let_def)
  then show ?thesis by (simp add: requireAuth_def)
qed

theorem edit_unknown_slug_fails_witness:
  "''no-such-post'' \<notin> slug ` set (blogs (attached_world True)) \<and>
   isAuthenticated (attached_world True) \<and>
   app example_config POST_admin_edit
     (blank_request\<lparr>param_slug := ''no-such-post'', body_title := Text ''First Post'',
        body_remove_file := Text ''on'', req_file := Some example_file\<rparr>)
     (attached_world True) = Some (Send 500 ''Error updating blog post'', attached_world True)"
proof -
  have absent: "param_slug (blank_request\<lparr>param_slug := ''no-such-post'', body_title := Text ''First Post'',
        body_remove_file := Text ''on'', req_file := Some example_file\<rparr>) \<notin> slug ` set (blogs (attached_world True))"
    by (simp add: attached_world_def example_world_def first_post_def second_post_def example_post_def)
  have auth: "isAuthenticated (attached_world True)"
    by (simp add: attached_world_def example_world_def)
  show ?thesis
    using edit_unknown_slug_fails [OF absent, of example_config] absent auth by simp
qed


section \<open>Facts about the examples\<close>

lemma digit_chars:
  "digit_char 0 = CHR ''0''" "digit_char (Suc 0) = CHR ''1''" "digit_char 2 = CHR ''2''"
  "digit_char 3 = CHR ''3''" "digit_char 4 = CHR ''4''" "digit_char 5 = CHR ''5''"
  "digit_char 6 = CHR ''6''" "digit_char 7 = CHR ''7''" "digit_char 8 = CHR ''8''"
  "digit_char 9 = CHR ''9''"
  by code_simp+

lemma example_timestamp: "decimal 1700000000000 = ''1700000000000''"
  by (simp add: decimal.simps digit_chars)

lemma slug_first_post: "generateSlug ''First Post'' = ''first-post''"
  by code_simp

lemma attached_world_facts:
  "isAuthenticated (attached_world True)"
  "distinct (map slug (blogs (attached_world True)))"
  "blogs (attached_world True) ! 0 = first_post"
  "blogs (attached_world True) ! 1 = second_post"
  "0 < length (blogs (attached_world True))"
  "1 < length (blogs (attached_world True))"
  "first_post \<in> set (blogs (attached_world True))"
  "calls (attached_world True) = []"
  by (simp_all add: attached_world_def example_world_def first_post_def second_post_def
      example_post_def)

lemma first_post_facts:
  "slug first_post = ''first-post''" "title first_post = ''First Post''"
  "file_url first_post =
     Some ''https://db.example/storage/v1/object/public/blog-files/1700000000000.png''"
  "post_id first_post = 1" "first_post \<noteq> second_post"
  "slug second_post = ''second''"
  by (simp_all add: first_post_def second_post_def example_post_def)

section \<open>What a submit-edit request writes\<close>

lemma select_by_slug_row:
  "distinct (map slug (blogs w)) \<Longrightarrow> p \<in> set (blogs w) \<Longrightarrow> select_by_slug (slug p) w = Some p"
  by (simp add: select_by_slug_def filter_distinct_slug single_def)

lemma blogs_storage_remove [simp]: "blogs (storage_remove names w) = blogs w"
  by (simp add: storage_remove_def)

lemma blogs_remove_attached [simp]: "blogs (remove_attached u w) = blogs w"
  by (simp add: remove_attached_def split: option.splits)

lemma bucket_remove_attached: "fst ` set (bucket (remove_attached u w)) \<subseteq> fst ` set (bucket w)"
  by (auto simp: remove_attached_def storage_remove_def split: option.splits)

lemma map_update_row:
  assumes "distinct (map slug rows)" and "i < length rows"
  shows "map (\<lambda>r. if slug r = slug (rows ! i) then g r else r) rows = rows[i := g (rows ! i)]"
proof (rule nth_equalityI)
  show "length (map (\<lambda>r. if slug r = slug (rows ! i) then g r else r) rows) =
        length (rows[i := g (rows ! i)])" by simp
next
  fix j
  assume "j < length (map (\<lambda>r. if slug r = slug (rows ! i) then g r else r) rows)"
  then have j: "j < length rows" by simp
  show "map (\<lambda>r. if slug r = slug (rows ! i) then g r else r) rows ! j =
        rows[i := g (rows ! i)] ! j"
  proof (cases "j = i")
    case True
    with j show ?thesis by simp
  next
    case False
    have "map slug rows ! j \<noteq> map slug rows ! i"
      using assms j False by (simp add: nth_eq_iff_index_eq del: nth_map)
    with j assms(2) have "slug (rows ! j) \<noteq> slug (rows ! i)" by simp
    with j False show ?thesis by simp
  qed
qed

text \<open>What a submit-edit request does when the title is a string, exactly one row has
  the old slug and the upload, if any, is accepted.\<close>

lemma post_admin_edit_updates:
  assumes title: "body_title req = Text t"
    and cur: "select_by_slug (param_slug req) w = Some cur"
    and upload: "\<forall>f. req_file req = Some f \<longrightarrow>
           decimal (now_file req) @ extname (originalname f) \<notin> fst ` set (bucket w)"
  shows "\<exists>w1 f'. post_admin_edit cfg req w =
           (Redirect ''/admin'',
            db_update (param_slug req) t (body_description req) f'
              (edit_slug (blogs w) (param_slug req) t (now_slug req)) w1) \<and>
           blogs w1 = blogs w"
proof (cases "req_file req")
  case None
  with title cur show ?thesis
    by (simp add: post_admin_edit_def Let_def) (metis blogs_remove_attached)
next
  case (Some f)
  let ?removing = "body_remove_file req = Text ''on'' \<and> truthy (file_url cur)"
  let ?w1 = "if ?removing then remove_attached (file_url cur) w else w"
  let ?u = "if ?removing then None else file_url cur"
  let ?w2 = "remove_attached ?u ?w1"
  let ?name = "decimal (now_file req) @ extname (originalname f)"
  have "fst ` set (bucket ?w2) \<subseteq> fst ` set (bucket w)"
    using bucket_remove_attached[of ?u ?w1] bucket_remove_attached[of "file_url cur" w]
    by (auto split: if_splits)
  with upload Some have free: "?name \<notin> fst ` set (bucket ?w2)" by blast
  then have up: "storage_upload ?name f ?w2 =
      Inr (?w2\<lparr>calls := calls ?w2 @ [StorageUpload ?name], bucket := bucket ?w2 @ [(?name, f)]\<rparr>)"
    by (simp add: storage_upload_def Let_def)
  have "blogs (?w2\<lparr>calls := calls ?w2 @ [StorageUpload ?name], bucket := bucket ?w2 @ [(?name, f)]\<rparr>) = blogs w"
    by simp
  with title cur Some up show ?thesis
    unfolding post_admin_edit_def Let_def
    by (simp only: form_value.case option.case sum.case) blast
qed


lemma is_digit_digit_char: "d < 10 \<Longrightarrow> is_digit (digit_char d)"
  by (simp add: is_digit_def digit_char_def code_unit_def)

lemma decimal_digits: "list_all is_digit (decimal n)"
proof (induction n rule: decimal.induct)
  case (1 n)
  show ?case
  proof (cases "n < 10")
    case True
    then show ?thesis by (simp add: decimal.simps[of n] is_digit_digit_char)
  next
    case False
    with "1.IH" show ?thesis by (simp add: decimal.simps[of n] is_digit_digit_char)
  qed
qed

lemma distinct_slug_eq:
  "distinct (map slug rows) \<Longrightarrow> p \<in> set rows \<Longrightarrow> q \<in> set rows \<Longrightarrow> slug q = slug p \<Longrightarrow> q = p"
  by (auto simp: distinct_map dest: inj_onD)

lemma edit_slug_conflict:
  assumes dist: "distinct (map slug rows)" and q: "q \<in> set rows" "slug q = generateSlug t"
    and other: "generateSlug t \<noteq> oldSlug"
  shows "edit_slug rows oldSlug t now = generateSlug t @ ''-'' @ decimal now"
proof -
  have "filter (\<lambda>r. slug r = generateSlug t \<and> slug r \<noteq> oldSlug) rows =
        filter (\<lambda>r. slug r = slug q) rows"
    using q(2) other by (intro filter_cong) auto
  also have "\<dots> = [q]" using dist q(1) by (rule filter_distinct_slug)
  finally show ?thesis by (simp add: edit_slug_def single_def)
qed

lemma edit_slug_same: "generateSlug t = oldSlug \<Longrightarrow> edit_slug rows oldSlug t now = oldSlug"
proof -
  assume same: "generateSlug t = oldSlug"
  have "filter (\<lambda>r. slug r = generateSlug t \<and> slug r \<noteq> oldSlug) rows = []"
    using same by (simp add: filter_empty_conv)
  with same show ?thesis by (simp add: edit_slug_def single_def)
qed

lemma db_update_row:
  assumes "distinct (map slug (blogs w))" and "i < length (blogs w)"
  shows "blogs (db_update (slug (blogs w ! i)) t d f s w) =
         (blogs w)[i := (blogs w ! i)\<lparr>title := t,
             description := (if d = Absent then description (blogs w ! i) else d),
             file_url := f, slug := s\<rparr>]"
  using map_update_row[OF assms,
      of "\<lambda>r. r\<lparr>title := t, description := (if d = Absent then description r else d),
                  file_url := f, slug := s\<rparr>"]
  by (simp add: db_update_def)

text \<open>
  C4: in a table whose slugs are pairwise distinct, a submit-edit request for the row \<open>p\<close>
  (sent with an authenticated session and a string title, and with no file or one whose
  object name is free) whose recomputed slug \<open>generateSlug t\<close> is held by another row \<open>q\<close>
  is answered with the redirect to \<open>/admin\<close>; the row of \<open>p\<close> then holds
  \<open>generateSlug t\<close>, a hyphen and the decimal digits of \<open>Date.now()\<close>, which differs from
  the slug of \<open>q\<close>, and \<open>q\<close> is still in the table.
\<close>

theorem edit_conflict_appends_timestamp:
  assumes auth: "isAuthenticated w" and dist: "distinct (map slug (blogs w))"
    and i: "i < length (blogs w)" and p: "blogs w ! i = p"
    and param: "param_slug req = slug p"
    and title: "body_title req = Text t"
    and q: "q \<in> set (blogs w)" "slug q = generateSlug t" "q \<noteq> p"
    and upload: "\<forall>f. req_file req = Some f \<longrightarrow>
           decimal (now_file req) @ extname (originalname f) \<notin> fst ` set (bucket w)"
  shows "\<exists>w' p'. app cfg POST_admin_edit req w = Some (Redirect ''/admin'', w') \<and>
           blogs w' = (blogs w)[i := p'] \<and>
           slug p' = generateSlug t @ ''-'' @ decimal (now_slug req) \<and>
           list_all is_digit (decimal (now_slug req)) \<and>
           slug p' \<noteq> slug q \<and> q \<in> set (blogs w')"
proof -
  have pin: "p \<in> set (blogs w)" using i p by auto
  have neq: "generateSlug t \<noteq> slug p"
    using distinct_slug_eq[OF dist pin q(1)] q(2,3) by auto
  have cur: "select_by_slug (param_slug req) w = Some p"
    using select_by_slug_row[OF dist pin] param by simp
  have new: "edit_slug (blogs w) (param_slug req) t (now_slug req) =
             generateSlug t @ ''-'' @ decimal (now_slug req)"
    using edit_slug_conflict[OF dist q(1,2)] neq param by simp
  obtain w1 f' where res: "post_admin_edit cfg req w =
      (Redirect ''/admin'',
       db_update (param_slug req) t (body_description req) f'
         (generateSlug t @ ''-'' @ decimal (now_slug req)) w1)" and same: "blogs w1 = blogs w"
    using post_admin_edit_updates[OF title cur upload, of cfg] new by auto
  let ?w' = "db_update (param_slug req) t (body_description req) f'
         (generateSlug t @ ''-'' @ decimal (now_slug req)) w1"
  let ?p' = "p\<lparr>title := t,
             description := (if body_description req = Absent then description p else body_description req),
             file_url := f', slug := generateSlug t @ ''-'' @ decimal (now_slug req)\<rparr>"
  have rows: "blogs ?w' = (blogs w)[i := ?p']"
    using db_update_row[of w1 i] dist i p param same by simp
  obtain j where j: "j < length (blogs w)" "blogs w ! j = q"
    using q(1) by (auto simp: in_set_conv_nth)
  with p q(3) have "j \<noteq> i" by auto
  with j have "(blogs w)[i := ?p'] ! j = q" by simp
  with j(1) have qin: "q \<in> set ((blogs w)[i := ?p'])"
    by (metis length_list_update nth_mem)
  have differs: "slug ?p' \<noteq> slug q" using q(2) by simp
  have answer: "app cfg POST_admin_edit req w = Some (Redirect ''/admin'', ?w')"
    using res auth by (simp add: requireAuth_def)
  show ?thesis
  proof (intro exI conjI)
    show "app cfg POST_admin_edit req w = Some (Redirect ''/admin'', ?w')" by fact
    show "blogs ?w' = (blogs w)[i := ?p']" by fact
    show "slug ?p' = generateSlug t @ ''-'' @ decimal (now_slug req)" by simp
    show "list_all is_digit (decimal (now_slug req))" by (rule decimal_digits)
    show "slug ?p' \<noteq> slug q" by fact
    show "q \<in> set (blogs ?w')" using rows qin by simp
  qed
qed


theorem edit_conflict_appends_timestamp_witness:
  "isAuthenticated (attached_world True) \<and>
   distinct (map slug (blogs (attached_world True))) \<and>
   (\<exists>w' p'. app example_config POST_admin_edit
        (blank_request\<lparr>param_slug := ''second'', body_title := Text ''First Post'',
           now_slug := 1700000000000\<rparr>) (attached_world True) =
        Some (Redirect ''/admin'', w') \<and>
      blogs w' = (blogs (attached_world True))[1 := p'] \<and>
      slug p' = ''first-post-1700000000000'' \<and>
      first_post \<in> set (blogs w'))"
proof -
  let ?req = "blank_request\<lparr>param_slug := ''second'', body_title := Text ''First Post'',
           now_slug := 1700000000000\<rparr>"
  have param: "param_slug ?req = slug second_post" by (simp add: first_post_facts)
  have title: "body_title ?req = Text ''First Post''" by simp
  have q: "slug first_post = generateSlug ''First Post''"
    by (simp add: first_post_facts slug_first_post)
  have upload: "\<forall>f. req_file ?req = Some f \<longrightarrow>
      decimal (now_file ?req) @ extname (originalname f) \<notin> fst ` set (bucket (attached_world True))"
    by (simp add: blank_request_def)
  have new: "generateSlug ''First Post'' @ ''-'' @ decimal (now_slug ?req) = ''first-post-1700000000000''"
    by (simp add: slug_first_post example_timestamp)
  from edit_conflict_appends_timestamp
    [OF attached_world_facts(1,2,6,4) param title attached_world_facts(7) q first_post_facts(5) upload,
     of example_config]
  show ?thesis
    unfolding new by (simp add: attached_world_facts) blast
qed

lemma map_slug_db_update:
  "map slug (blogs (db_update key t d f key w)) = map slug (blogs w)"
  by (simp add: db_update_def comp_def cong: map_cong)

lemma blogs_storage_upload:
  "storage_upload name f w = Inl w' \<or> storage_upload name f w = Inr w' \<Longrightarrow> blogs w' = blogs w"
  by (auto simp: storage_upload_def Let_def split: if_splits)

lemma post_admin_edit_keeps_slugs:
  assumes "body_title req = Text t" and "generateSlug t = param_slug req"
  shows "map slug (blogs (snd (post_admin_edit cfg req w))) = map slug (blogs w)"
proof -
  have new: "edit_slug (blogs w) (param_slug req) t (now_slug req) = param_slug req"
    using assms(2) by (rule edit_slug_same)
  show ?thesis
  proof (cases "select_by_slug (param_slug req) w")
    case None
    with assms(1) show ?thesis by (simp add: post_admin_edit_def)
  next
    case (Some cur)
    show ?thesis
    proof (cases "req_file req")
      case None
      with assms(1) Some new show ?thesis
        by (simp add: post_admin_edit_def Let_def map_slug_db_update)
    next
      case f: (Some f)
      let ?removing = "body_remove_file req = Text ''on'' \<and> truthy (file_url cur)"
      let ?w1 = "if ?removing then remove_attached (file_url cur) w else w"
      let ?u = "if ?removing then None else file_url cur"
      let ?w2 = "remove_attached ?u ?w1"
      let ?name = "decimal (now_file req) @ extname (originalname f)"
      have w2: "blogs ?w2 = blogs w" by simp
      show ?thesis
      proof (cases "storage_upload ?name f ?w2")
        case (Inl w3)
        then have "blogs w3 = blogs w" using blogs_storage_upload[of ?name f ?w2 w3] w2 by simp
        with assms(1) Some f Inl show ?thesis
          by (simp add: post_admin_edit_def Let_def)
      next
        case (Inr w3)
        then have "blogs w3 = blogs w" using blogs_storage_upload[of ?name f ?w2 w3] w2 by simp
        with assms(1) Some f Inr new show ?thesis
          by (simp add: post_admin_edit_def Let_def map_slug_db_update)
      qed
    qed
  qed
qed

text \<open>
  C3, as the specification states it, fails: the handler never compares titles, it
  recomputes the slug from the submitted title. A row created as the second
  \<open>Hello World\<close> holds \<open>hello-world-1\<close>; submitting its own title gives
  \<open>hello-world\<close>, which the first row holds, so the row gets \<open>hello-world\<close> with a
  timestamp.
\<close>

theorem edit_same_title_changes_slug:
  "title (blogs two_hello_worlds ! 1) = ''Hello World'' \<and>
   slug (blogs two_hello_worlds ! 1) = ''hello-world-1'' \<and>
   app example_config POST_admin_edit
     (blank_request\<lparr>param_slug := ''hello-world-1'', body_title := Text ''Hello World'',
        now_slug := 1700000000000\<rparr>) two_hello_worlds =
   Some (Redirect ''/admin'',
         two_hello_worlds
           \<lparr>blogs := [example_post 1 ''Hello World'' ''hello-world'' None,
                      example_post 2 ''Hello World'' ''hello-world-1700000000000'' None],
            calls := [DbUpdate ''hello-world-1'']\<rparr>)"
  by (simp add: post_admin_edit_def edit_slug_def select_by_slug_def single_def db_update_def
      requireAuth_def two_hello_worlds_def example_world_def example_post_def blank_request_def
      slug_hello_world example_timestamp Let_def)


text \<open>
  C3 (amended): for a row \<open>p\<close> whose slug is \<open>generateSlug\<close> of its title, a submit-edit
  request for \<open>p\<close> whose title is the title of \<open>p\<close> leaves every slug of the table as it
  was, that of \<open>p\<close> included, whatever the answer; and for an authenticated session,
  a table with pairwise distinct slugs and no file, the answer is the redirect to
  \<open>/admin\<close> and the row of \<open>p\<close> keeps its title and its slug.
\<close>

theorem edit_same_title_keeps_slug:
  assumes i: "i < length (blogs w)" and p: "blogs w ! i = p"
    and param: "param_slug req = slug p"
    and title: "body_title req = Text (title p)"
    and plain: "slug p = generateSlug (title p)"
  shows "(\<exists>r w'. app cfg POST_admin_edit req w = Some (r, w') \<and>
            map slug (blogs w') = map slug (blogs w) \<and> slug (blogs w' ! i) = slug p) \<and>
         (isAuthenticated w \<and> distinct (map slug (blogs w)) \<and> req_file req = None \<longrightarrow>
            (\<exists>w' p'. app cfg POST_admin_edit req w = Some (Redirect ''/admin'', w') \<and>
               blogs w' = (blogs w)[i := p'] \<and> title p' = title p \<and> slug p' = slug p))"
proof (intro conjI impI)
  have keep: "map slug (blogs (snd (post_admin_edit cfg req w))) = map slug (blogs w)"
    using post_admin_edit_keeps_slugs[OF title, of cfg w] plain param by simp
  have at: "\<And>w'. map slug (blogs w') = map slug (blogs w) \<Longrightarrow> slug (blogs w' ! i) = slug p"
  proof -
    fix w'
    assume m: "map slug (blogs w') = map slug (blogs w)"
    then have "length (blogs w') = length (blogs w)" using map_eq_imp_length_eq by blast
    with i have "slug (blogs w' ! i) = map slug (blogs w') ! i" by simp
    also have "\<dots> = slug p" using m i p by simp
    finally show "slug (blogs w' ! i) = slug p" .
  qed
  show "\<exists>r w'. app cfg POST_admin_edit req w = Some (r, w') \<and>
            map slug (blogs w') = map slug (blogs w) \<and> slug (blogs w' ! i) = slug p"
  proof (cases "isAuthenticated w")
    case True
    then have "app cfg POST_admin_edit req w =
        Some (fst (post_admin_edit cfg req w), snd (post_admin_edit cfg req w))"
      by (simp add: requireAuth_def)
    with keep at[OF keep] show ?thesis by blast
  next
    case False
    then have "app cfg POST_admin_edit req w = Some (Redirect ''/login'', w)"
      by (simp add: requireAuth_def)
    with at[of w] show ?thesis by simp
  qed
next
  assume h: "isAuthenticated w \<and> distinct (map slug (blogs w)) \<and> req_file req = None"
  have pin: "p \<in> set (blogs w)" using i p by auto
  have cur: "select_by_slug (param_slug req) w = Some p"
    using select_by_slug_row[of w p] h pin param by simp
  have new: "edit_slug (blogs w) (param_slug req) (title p) (now_slug req) = slug p"
    using edit_slug_same[of "title p" "param_slug req"] plain param by simp
  obtain w1 f' where res: "post_admin_edit cfg req w =
      (Redirect ''/admin'',
       db_update (param_slug req) (title p) (body_description req) f' (slug p) w1)"
      and same: "blogs w1 = blogs w"
    using post_admin_edit_updates[OF title cur, of cfg] h new by auto
  let ?w' = "db_update (param_slug req) (title p) (body_description req) f' (slug p) w1"
  let ?p' = "p\<lparr>title := title p,
             description := (if body_description req = Absent then description p else body_description req),
             file_url := f', slug := slug p\<rparr>"
  have rows: "blogs ?w' = (blogs w)[i := ?p']"
    using db_update_row[of w1 i] h i p param same by simp
  show "\<exists>w' p'. app cfg POST_admin_edit req w = Some (Redirect ''/admin'', w') \<and>
               blogs w' = (blogs w)[i := p'] \<and> title p' = title p \<and> slug p' = slug p"
  proof (intro exI conjI)
    show "app cfg POST_admin_edit req w = Some (Redirect ''/admin'', ?w')"
      using res h by (simp add: requireAuth_def)
    show "blogs ?w' = (blogs w)[i := ?p']" by fact
    show "title ?p' = title p" by simp
    show "slug ?p' = slug p" by simp
  qed
qed


theorem edit_same_title_keeps_slug_witness:
  "slug first_post = generateSlug (title first_post) \<and>
   (\<exists>w' p'. app example_config POST_admin_edit
        (blank_request\<lparr>param_slug := ''first-post'', body_title := Text ''First Post''\<rparr>)
        (attached_world True) = Some (Redirect ''/admin'', w') \<and>
      blogs w' = (blogs (attached_world True))[0 := p'] \<and>
      title p' = ''First Post'' \<and> slug p' = ''first-post'')"
proof -
  let ?req = "blank_request\<lparr>param_slug := ''first-post'', body_title := Text ''First Post''\<rparr>"
  have param: "param_slug ?req = slug first_post" by (simp add: first_post_facts)
  have title: "body_title ?req = Text (title first_post)" by (simp add: first_post_facts)
  have plain: "slug first_post = generateSlug (title first_post)"
    by (simp add: first_post_facts slug_first_post)
  have nofile: "req_file ?req = None" by (simp add: blank_request_def)
  from edit_same_title_keeps_slug
    [OF attached_world_facts(5,3) param title plain, of example_config]
  show ?thesis
    using plain nofile by (simp add: attached_world_facts first_post_facts)
qed

section \<open>Removing the attached object\<close>

text \<open>
  C8 does not hold of the source: the delete handler takes the object's name to be the
  last segment of \<open>file_url\<close>, but \<open>file_url\<close> is the encoded URL. The create handler
  reaches \<open>scan_world\<close> from the empty table; for its post, whose object is \<open>5.p g\<close>,
  the delete handler sends the \<open>remove\<close> of \<open>5.p%20g\<close> and deletes the row: the
  redirect to \<open>/admin\<close> is sent, the row is gone, and the object \<open>5.p g\<close> is still in
  the bucket.
\<close>

theorem delete_leaves_encoded_object:
  "app example_config POST_admin_blog create_scan (example_world [] [] True) =
     Some (Redirect ''/'', scan_world) \<and>
   file_url (blogs scan_world ! 0) = Some (getPublicUrl example_config ''5.p g'') \<and>
   app example_config POST_admin_delete (blank_request\<lparr>param_slug := ''scan''\<rparr>) scan_world =
     Some (Redirect ''/admin'',
           scan_world
             \<lparr>blogs := [],
              bucket := [(''5.p g'', spaced_file)],
              calls := [StorageUpload ''5.p g'', DbInsert ''scan'',
                        StorageRemove [''5.p%20g''], DbDelete ''scan'']\<rparr>)"
  by code_simp

text \<open>
  C9 does not hold of the source, by the same use of the encoded last segment as an
  object name: a submit-edit request for the post of \<open>scan_world\<close> (the state the
  create handler reaches from the empty table) with \<open>remove_file\<close> equal to \<open>on\<close> and
  no file sends the \<open>remove\<close> of \<open>5.p%20g\<close> and stores \<open>null\<close> as \<open>file_url\<close>; the
  object \<open>5.p g\<close> is still in the bucket, and no row references it any more.
\<close>

theorem edit_remove_flag_leaves_encoded_object:
  "app example_config POST_admin_blog create_scan (example_world [] [] True) =
     Some (Redirect ''/'', scan_world) \<and>
   file_url (blogs scan_world ! 0) = Some (getPublicUrl example_config ''5.p g'') \<and>
   app example_config POST_admin_edit
     (blank_request\<lparr>param_slug := ''scan'', body_title := Text ''Scan'',
        body_remove_file := Text ''on''\<rparr>) scan_world =
     Some (Redirect ''/admin'',
           scan_world
             \<lparr>blogs := [\<lparr>post_id = 1, title = ''Scan'', description = Text ''text'',
                          slug = ''scan'', file_url = None, created_at = 6\<rparr>],
              bucket := [(''5.p g'', spaced_file)],
              calls := [StorageUpload ''5.p g'', DbInsert ''scan'',
                        StorageRemove [''5.p%20g''], DbUpdate ''scan'']\<rparr>)"
  by code_simp

end
